theory Spec2Isabelle
  imports Complex_Main "HOL-Library.Char_ord" "HOL-Library.List_Lexorder" "HOL-Library.AList"
begin

section \<open>Python values used by noaa_scrapper.py\<close>

text \<open>
  Exceptions are values. \<open>HTTPError\<close> is what \<open>requests\<close> raises from
  \<open>Response.raise_for_status\<close>; the three fatal conditions of \<open>Master.start\<close> are all
  \<open>RuntimeError\<close>s that differ in their message only; \<open>ReadError\<close> is
  \<open>tarfile.ReadError\<close>.
\<close>

datatype error =
    HTTPError int
  | RuntimeError string
  | ValueError
  | IndexError
  | ReadError
  | FileNotFoundError
  | AttributeError

subsection \<open>Strings\<close>

text \<open>\<open>s.split(sep)\<close> for a separator of one character: never an empty list.\<close>

fun split :: "char \<Rightarrow> string \<Rightarrow> string list" where
  "split sep [] = [[]]"
| "split sep (c # cs) =
     (if c = sep then [] # split sep cs
      else (case split sep cs of [] \<Rightarrow> [[c]] | p # ps \<Rightarrow> (c # p) # ps))"

definition is_digit :: "char \<Rightarrow> bool" where
  "is_digit c = (CHR ''0'' \<le> c \<and> c \<le> CHR ''9'')"

definition digit_val :: "char \<Rightarrow> int" where
  "digit_val c = int (of_char c) - 48"

text \<open>The value of a string of decimal digits, most significant digit first.\<close>

definition dec_val :: "string \<Rightarrow> int" where
  "dec_val ds = foldl (\<lambda>a c. 10 * a + digit_val c) 0 ds"

text \<open>
  The characters that \<open>int\<close> skips at both ends of its argument: the ASCII white space
  (tab to carriage return, and the space) and, among the other code points below 256,
  the next-line and the no-break space, which \<open>int\<close> turns into spaces first. The
  separators 28 to 31 are white space for \<open>str.strip\<close> but not for \<open>int\<close>, which
  raises \<open>ValueError\<close> on them.
\<close>

definition is_space :: "char \<Rightarrow> bool" where
  "is_space c = (let n = (of_char c :: nat) in
     (9 \<le> n \<and> n \<le> 13) \<or> n = 32 \<or> n = 133 \<or> n = 160)"

definition strip :: "string \<Rightarrow> string" where
  "strip s = rev (dropWhile is_space (rev (dropWhile is_space s)))"

text \<open>
  The digit part of an integer literal accepted by \<open>int\<close>: digits, with single underscores
  allowed between two digits.
\<close>

fun digit_part :: "string \<Rightarrow> bool" where
  "digit_part [] = False"
| "digit_part [c] = is_digit c"
| "digit_part (c # d # r) =
     (is_digit c \<and> (if d = CHR ''_'' then digit_part r else digit_part (d # r)))"

text \<open>
  \<open>int(s)\<close> in base ten: white space around, an optional sign, then the digit part.
  \<open>None\<close> stands for the \<open>ValueError\<close> that \<open>int\<close> raises. Python's integers are
  unbounded, and so is \<open>int\<close> here.
\<close>

definition py_int :: "string \<Rightarrow> int option" where
  "py_int s =
     (let t = strip s;
          neg = (t \<noteq> [] \<and> hd t = CHR ''-'');
          r = (if t \<noteq> [] \<and> (hd t = CHR ''-'' \<or> hd t = CHR ''+'') then tl t else t)
      in if digit_part r
         then Some ((if neg then - 1 else 1) * dec_val (filter is_digit r))
         else None)"

text \<open>\<open>str(n)\<close> for an integer.\<close>

fun str_nat :: "nat \<Rightarrow> string" where
  "str_nat n = (if n < 10 then [char_of (48 + n)] else str_nat (n div 10) @ [char_of (48 + n mod 10)])"

definition py_str :: "int \<Rightarrow> string" where
  "py_str i = (if i < 0 then CHR ''-'' # str_nat (nat (- i)) else str_nat (nat i))"

text \<open>\<open>range(a, b)\<close> as the list of its elements.\<close>

definition py_range :: "int \<Rightarrow> int \<Rightarrow> int list" where
  "py_range a b = [a .. b - 1]"

text \<open>
  \<open>sorted\<close> on strings: ascending in the order of \<open>str\<close>, which compares code points
  lexicographically (a proper prefix is smaller).
\<close>

definition sorted_py :: "string list \<Rightarrow> string list" where
  "sorted_py xs = sort xs"

section \<open>Config\<close>

text \<open>
  \<open>Config.normalize_years\<close>, the \<open>type\<close> of the \<open>--years\<close> option. The subscripts and
  the two calls of \<open>int\<close> are evaluated in the order of the source, each with its
  exception.
\<close>

definition normalize_years :: "string \<Rightarrow> error + string list" where
  "normalize_years inp =
     (let years = (if CHR '','' \<in> set inp then split (CHR '','') inp else split (CHR ''-'') inp)
      in if CHR ''-'' \<in> set inp then
           (case years of
              [] \<Rightarrow> Inl IndexError
            | y0 # rest \<Rightarrow>
                (case py_int y0 of
                   None \<Rightarrow> Inl ValueError
                 | Some a \<Rightarrow>
                     (case rest of
                        [] \<Rightarrow> Inl IndexError
                      | y1 # _ \<Rightarrow>
                          (case py_int y1 of
                             None \<Rightarrow> Inl ValueError
                           | Some b \<Rightarrow> Inr (sorted_py (map py_str (py_range a (b + 1))))))))
         else Inr (sorted_py years))"

subsection \<open>Patterns\<close>

text \<open>
  The fragment of the pattern language of \<open>re\<close> that the default member pattern is written
  in: \<open>\d\<close>, a literal character, concatenation and \<open>+\<close>; alternation, the empty pattern,
  the pattern without matches and \<open>*\<close> are there for the matcher below.
\<close>

datatype rexp =
    Zero
  | One
  | Digit
  | Lit char
  | Alt rexp rexp
  | Seq rexp rexp
  | Star rexp

definition Many1 :: "rexp \<Rightarrow> rexp" where
  "Many1 r = Seq r (Star r)"

text \<open>Whether a pattern matches the empty string.\<close>

fun accepts_empty :: "rexp \<Rightarrow> bool" where
  "accepts_empty Zero = False"
| "accepts_empty One = True"
| "accepts_empty Digit = False"
| "accepts_empty (Lit c) = False"
| "accepts_empty (Alt r s) = (accepts_empty r \<or> accepts_empty s)"
| "accepts_empty (Seq r s) = (accepts_empty r \<and> accepts_empty s)"
| "accepts_empty (Star r) = True"

text \<open>The pattern for what may follow after the character \<open>c\<close> has been read.\<close>

fun after :: "char \<Rightarrow> rexp \<Rightarrow> rexp" where
  "after c Zero = Zero"
| "after c One = Zero"
| "after c Digit = (if is_digit c then One else Zero)"
| "after c (Lit d) = (if c = d then One else Zero)"
| "after c (Alt r s) = Alt (after c r) (after c s)"
| "after c (Seq r s) =
     (if accepts_empty r then Alt (Seq (after c r) s) (after c s) else Seq (after c r) s)"
| "after c (Star r) = Seq (after c r) (Star r)"

text \<open>
  \<open>match(pattern, s) is not None\<close>: \<open>re.match\<close> anchors the pattern at the start of \<open>s\<close>
  and not at its end, so it succeeds when the pattern matches some prefix of \<open>s\<close>.
\<close>

fun re_match :: "rexp \<Rightarrow> string \<Rightarrow> bool" where
  "re_match r [] = accepts_empty r"
| "re_match r (c # cs) = (accepts_empty r \<or> re_match (after c r) cs)"

text \<open>The strings that a pattern matches as a whole, to state what the matcher decides.\<close>

inductive_set star :: "string set \<Rightarrow> string set" for L :: "string set" where
  star_empty: "[] \<in> star L"
| star_more: "u \<in> L \<Longrightarrow> v \<in> star L \<Longrightarrow> u @ v \<in> star L"

fun lang :: "rexp \<Rightarrow> string set" where
  "lang Zero = {}"
| "lang One = {[]}"
| "lang Digit = {[c] | c. is_digit c}"
| "lang (Lit d) = {[d]}"
| "lang (Alt r s) = lang r \<union> lang s"
| "lang (Seq r s) = {u @ v | u v. u \<in> lang r \<and> v \<in> lang s}"
| "lang (Star r) = star (lang r)"

text \<open>\<open>Config.DEFAULT_MEMBER_REGEX\<close>, the pattern \<^verbatim>\<open>\d+-\d+-\d+\<close>.\<close>

definition DEFAULT_MEMBER_REGEX :: rexp where
  "DEFAULT_MEMBER_REGEX =
     Seq (Many1 Digit) (Seq (Lit (CHR ''-'')) (Seq (Many1 Digit) (Seq (Lit (CHR ''-'')) (Many1 Digit))))"

subsection \<open>The options\<close>

text \<open>
  The fields of \<open>Config\<close> that \<open>Worker.run\<close> and \<open>Master.start\<close> read. A pattern option
  is held as what the code computes with it: \<open>member_regex conf m\<close> is
  \<open>match(conf.member_regex, m) is not None\<close>, and \<open>index_regex conf t\<close> is
  \<open>findall(conf.index_regex, t)\<close>, so that the theorems hold for every pattern.
  \<open>polling_timeout\<close> is the argument of \<open>sleep\<close>; the time that passes shows in the next
  reading of the clock.
\<close>

record Config =
  url :: string
  index_regex :: "string \<Rightarrow> string list"
  member_regex :: "string \<Rightarrow> bool"
  run_time_max :: int
  workers_count :: int
  years :: "string list"
  force :: bool
  tmp_dir :: string
  is_compress :: bool

section \<open>The outside world\<close>

type_synonym bytes = "char list"

text \<open>
  A \<open>requests.Response\<close>: its status code, its \<open>text\<close> (here \<open>body_text\<close>), and what
  \<open>tar_open\<close> finds in the body read from \<open>raw\<close>: the members in listing order, each a
  name with the content of its regular file, or \<open>None\<close> when the body is no
  gzip-compressed tar archive that \<open>tarfile\<close> can read (recorded as its \<open>ReadError\<close>).
\<close>

record response =
  status_code :: int
  body_text :: string
  raw :: "(string \<times> bytes) list option"

text \<open>
  \<open>Response.raise_for_status\<close> of \<open>requests\<close>: an \<open>HTTPError\<close> for a client error
  (400 to 499) or a server error (500 to 599), and a plain return for every other status.
\<close>

definition raise_for_status :: "response \<Rightarrow> error option" where
  "raise_for_status res =
     (if 400 \<le> status_code res \<and> status_code res < 600
      then Some (HTTPError (status_code res)) else None)"

text \<open>
  A call of the logger is recorded with its level, its format string and its arguments;
  the other events are the request, the read of the response body and the extraction.
\<close>

datatype level = INFO | WARNING

datatype arg = Str string | Strs "string list" | StrSet "string set"

datatype event =
    Log level string "arg list"
  | Get string
  | Read_body string
  | Extractall string

section \<open>Worker\<close>

text \<open>
  What a worker process changes. \<open>files\<close> are the regular files of the working directory
  by path; \<open>tmp_dirs\<close> the years whose directory \<open>tmp_dir / year\<close> exists and
  \<open>tmp_files\<close> the regular files of the temporary tree by their place on disk, a tree
  apart from the output files; \<open>queue_done\<close> the completion signals put so far. The
  content of a \<open>.gz\<close> output is held as the stream that \<open>gzip\<close> reads back from it, to
  which a gzip-append adds what was written.
\<close>

record wstate =
  files :: "string \<rightharpoonup> bytes"
  tmp_dirs :: "string set"
  tmp_files :: "string \<rightharpoonup> bytes"
  queue_done :: "string list"
  trace :: "event list"

definition emit :: "event \<Rightarrow> wstate \<Rightarrow> wstate" where
  "emit e s = s\<lparr>trace := trace s @ [e]\<rparr>"

definition put_done :: "string \<Rightarrow> wstate \<Rightarrow> wstate" where
  "put_done year s = s\<lparr>queue_done := queue_done s @ [year]\<rparr>"

definition isfile :: "wstate \<Rightarrow> string \<Rightarrow> bool" where
  "isfile s p = (files s p \<noteq> None)"

definition remove :: "string \<Rightarrow> wstate \<Rightarrow> wstate" where
  "remove p s = s\<lparr>files := (files s)(p := None)\<rparr>"

definition mkdir :: "string \<Rightarrow> wstate \<Rightarrow> wstate" where
  "mkdir year s = s\<lparr>tmp_dirs := insert year (tmp_dirs s)\<rparr>"

text \<open>
  The file system decides which file a member name denotes under the directory of a year:
  \<open>locate year name\<close> is the place on disk of \<open>tmp_dir / year / name\<close>, for
  \<open>tar.extractall\<close> and for the later \<open>open\<close> alike. It is a parameter of the worker, as
  the remote side is: different names can denote one place, as \<open>1-2-3\<close> and \<open>./1-2-3\<close>
  do.
\<close>

type_synonym locator = "string \<Rightarrow> string \<Rightarrow> string"

text \<open>\<open>tar.extractall\<close>: every member in listing order, a later one over an earlier one
  at the same place.\<close>

fun extractall :: "locator \<Rightarrow> string \<Rightarrow> (string \<times> bytes) list \<Rightarrow> wstate \<Rightarrow> wstate" where
  "extractall locate year [] s = s"
| "extractall locate year (m # ms) s =
     extractall locate year ms (s\<lparr>tmp_files := (tmp_files s)(locate year (fst m) \<mapsto> snd m)\<rparr>)"

text \<open>Opening a path in mode \<open>ab\<close> creates the file when it is missing.\<close>

definition open_append :: "string \<Rightarrow> wstate \<Rightarrow> wstate" where
  "open_append p s =
     s\<lparr>files := (files s)(p \<mapsto> (case files s p of None \<Rightarrow> [] | Some old \<Rightarrow> old))\<rparr>"

definition fd_write :: "string \<Rightarrow> bytes \<Rightarrow> wstate \<Rightarrow> wstate" where
  "fd_write p b s =
     s\<lparr>files := (files s)(p \<mapsto> (case files s p of None \<Rightarrow> [] | Some old \<Rightarrow> old) @ b)\<rparr>"

text \<open>The loop over \<open>data\<close> inside \<open>with _open(result, 'ab')\<close>.\<close>

fun aggregate ::
  "locator \<Rightarrow> string \<Rightarrow> string \<Rightarrow> string list \<Rightarrow> wstate \<Rightarrow> error option \<times> wstate" where
  "aggregate locate year result [] s = (None, s)"
| "aggregate locate year result (data_file # rest) s =
     (let s1 = emit (Log INFO ''Aggregating %s into %s'' [Str data_file, Str result]) s
      in case tmp_files s1 (locate year data_file) of
           None \<Rightarrow> (Some FileNotFoundError, s1)
         | Some b \<Rightarrow> aggregate locate year result rest (fd_write result b s1))"

text \<open>The local \<open>result\<close>: the path of the output file of a year.\<close>

definition result_path :: "Config \<Rightarrow> string \<Rightarrow> string" where
  "result_path conf year = (if is_compress conf then ''./'' @ year @ ''.gz'' else ''./'' @ year)"

text \<open>
  The second half of a turn of the loop of \<open>Worker.run\<close>, from \<open>tmp.mkdir\<close> to the
  completion signal: the body is read and opened as an archive, all of it is extracted,
  and the extracted files of the matching names are appended to the output.
\<close>

definition extract_and_aggregate ::
  "Config \<Rightarrow> locator \<Rightarrow> response \<Rightarrow> string \<times> string \<Rightarrow> wstate \<Rightarrow> error option \<times> wstate" where
  "extract_and_aggregate conf locate res job s3 =
     (let year = fst job; filename = snd job;
          result = result_path conf year;
          s4 = emit (Log INFO ''Dumping %s into %s''
                       [Str filename, Str (tmp_dir conf @ ''/'' @ year)])
                 (mkdir year s3);
          s5 = emit (Read_body (url conf @ filename)) s4
      in case raw res of
           None \<Rightarrow> (Some ReadError, s5)
         | Some members \<Rightarrow>
             (let data = filter (member_regex conf) (map fst members);
                  s6 = emit (Extractall year) (extractall locate year members s5);
                  r = aggregate locate year result data (open_append result s6)
              in (case fst r of
                    Some e \<Rightarrow> (Some e, snd r)
                  | None \<Rightarrow> (None, put_done year (snd r)))))"

text \<open>
  One turn of the loop of \<open>Worker.run\<close> after the job \<open>(year, filename)\<close> has been taken
  from the queue. \<open>get\<close> is the remote side: the response to a GET of a URL; \<open>locate\<close>
  is the file system's reading of member names. The result is the exception that ends
  the process, or \<open>None\<close> when the loop goes on to the next job.
\<close>

definition run_job ::
  "Config \<Rightarrow> (string \<Rightarrow> response) \<Rightarrow> locator \<Rightarrow> string \<times> string \<Rightarrow> wstate \<Rightarrow>
     error option \<times> wstate" where
  "run_job conf get locate job s0 =
     (let year = fst job; filename = snd job;
          s1 = emit (Log INFO ''Fetching %s'' [Str (url conf @ filename)]) s0;
          res = get (url conf @ filename);
          s2 = emit (Get (url conf @ filename)) s1
      in if \<not> (200 \<le> status_code res \<and> status_code res < 300) then
           (None, put_done year
              (emit (Log WARNING ''Cannot download %s for some reason'' [Str filename]) s2))
         else
           let result = result_path conf year
           in if isfile s2 result \<and> \<not> force conf then
                (None, put_done year
                   (emit (Log INFO ''The ./%s.txt is already exists'' [Str year]) s2))
              else if isfile s2 result \<and> force conf then
                extract_and_aggregate conf locate res job
                  (remove result
                     (emit (Log INFO ''The ./%s.txt is already exists; removing'' [Str year]) s2))
              else
                extract_and_aggregate conf locate res job s2)"

section \<open>Master\<close>

text \<open>
  What the master process holds: the slots of \<open>self.workers\<close> (a started worker is its
  number), the jobs put on \<open>self.queue\<close>, the local \<open>pending\<close> of \<open>start\<close>, and the
  records of the logger.
\<close>

record mstate =
  workers :: "nat option list"
  queue :: "(string \<times> string) list"
  pending :: "string set"
  logged :: "event list"

definition log_m :: "event \<Rightarrow> mstate \<Rightarrow> mstate" where
  "log_m e s = s\<lparr>logged := logged s @ [e]\<rparr>"

text \<open>\<open>Master.__init__\<close>.\<close>

definition Master :: "Config \<Rightarrow> mstate" where
  "Master conf =
     \<lparr>workers = replicate (nat (workers_count conf)) None, queue = [], pending = {}, logged = []\<rparr>"

text \<open>
  The index: a \<open>dict\<close> keeps its keys in the order of their first insertion, and a second
  assignment to a key replaces the value in place. The unpacking \<open>_, year, *_\<close> needs two
  parts at least.
\<close>

fun build_index :: "string list \<Rightarrow> (string \<times> string) list \<Rightarrow> error + (string \<times> string) list" where
  "build_index [] index = Inr index"
| "build_index (filename # rest) index =
     (case split (CHR ''_'') filename of
        _ # year # _ \<Rightarrow> build_index rest (AList.update year filename index)
      | _ \<Rightarrow> Inl ValueError)"

text \<open>The loop that starts the workers.\<close>

fun spawn :: "nat list \<Rightarrow> mstate \<Rightarrow> mstate" where
  "spawn [] s = s"
| "spawn (number # rest) s = spawn rest (s\<lparr>workers := (workers s)[number := Some number]\<rparr>)"

text \<open>\<open>pending.discard(year)\<close> and the loop that empties \<open>queue_done\<close>.\<close>

definition discard :: "string \<Rightarrow> string set \<Rightarrow> string set" where
  "discard year P = P - {year}"

fun drain :: "string list \<Rightarrow> string set \<Rightarrow> string set" where
  "drain [] P = P"
| "drain (year # rest) P = drain rest (discard year P)"

text \<open>
  The years that a drain really takes out of the set, in order: an observation of the
  loop, not a part of it.
\<close>

fun removals :: "string list \<Rightarrow> string set \<Rightarrow> string list" where
  "removals [] P = []"
| "removals (year # rest) P =
     (if year \<in> P then year # removals rest (discard year P) else removals rest (discard year P))"

text \<open>
  What the master observes in one turn of its poll loop: \<open>elapsed\<close>, the float that the
  subtraction \<open>monotonic() - start\<close> yields in that turn, held as the real number that
  this float denotes (so the rounding of the subtraction is part of the observation and
  not computed here); \<open>is_alive()\<close> of each worker by number; and the signals taken from
  \<open>queue_done\<close>. The comparison of a float with the integer \<open>run_time_max\<close> is by
  value in Python, as it is here.
\<close>

record poll =
  elapsed :: real
  is_alive :: "nat \<Rightarrow> bool"
  arrived :: "string list"

text \<open>\<open>any(not w.is_alive() for w in self.workers)\<close>; a slot still \<open>None\<close> has no such
  method.\<close>

fun any_dead :: "(nat \<Rightarrow> bool) \<Rightarrow> nat option list \<Rightarrow> error + bool" where
  "any_dead alive [] = Inr False"
| "any_dead alive (None # ws) = Inl AttributeError"
| "any_dead alive (Some n # ws) = (if \<not> alive n then Inr True else any_dead alive ws)"

text \<open>
  The poll loop, one turn for each observation. \<open>Some (Inr ())\<close> is the return of
  \<open>start\<close>, \<open>Some (Inl e)\<close> the exception it raises, and \<open>None\<close> says that the loop is
  still running after the last observation given.
\<close>

fun poll_loop :: "Config \<Rightarrow> poll list \<Rightarrow> mstate \<Rightarrow> (error + unit) option \<times> mstate" where
  "poll_loop conf [] s =
     (if pending s = {} then (Some (Inr ()), log_m (Log INFO ''All done'' []) s) else (None, s))"
| "poll_loop conf (p # ps) s =
     (if pending s = {} then (Some (Inr ()), log_m (Log INFO ''All done'' []) s)
      else if elapsed p > real_of_int (run_time_max conf) then
        (Some (Inl (RuntimeError ''There is some dangling work.'')), s)
      else
        (case any_dead (is_alive p) (workers s) of
           Inl e \<Rightarrow> (Some (Inl e), s)
         | Inr True \<Rightarrow> (Some (Inl (RuntimeError ''Some worker is dead :(.'')), s)
         | Inr False \<Rightarrow>
             (let P = drain (arrived p) (pending s)
              in poll_loop conf ps
                   (log_m (Log INFO ''Waiting for {pending}.'' [StrSet P]) (s\<lparr>pending := P\<rparr>)))))"

text \<open>
  \<open>Master.start\<close>. \<open>get\<close> is the remote side and \<open>polls\<close> the observations of the
  turns of the poll loop. The queue is unbounded, so that
  \<open>put\<close> never meets \<open>Full\<close>. A \<open>set\<close> is iterated in no specified order; the jobs are
  put in the order of the index.
\<close>

definition start ::
  "Config \<Rightarrow> (string \<Rightarrow> response) \<Rightarrow> poll list \<Rightarrow> (error + unit) option \<times> mstate" where
  "start conf get polls =
     (let s0 = Master conf;
          res = get (url conf)
      in case (if \<not> (200 \<le> status_code res \<and> status_code res < 300)
               then raise_for_status res else None) of
           Some e \<Rightarrow> (Some (Inl e), s0)
         | None \<Rightarrow>
             (case build_index (index_regex conf (body_text res)) [] of
                Inl e \<Rightarrow> (Some (Inl e), s0)
              | Inr index \<Rightarrow>
                  (let s1 = spawn [0 ..< nat (workers_count conf)] s0;
                       P = set (filter (\<lambda>year. year \<in> fst ` set index) (years conf));
                       s2 = s1\<lparr>pending := P\<rparr>
                   in if P = {} then
                        (Some (Inl (RuntimeError ''There is nothing to do.'')),
                         log_m (Log WARNING ''Cannot fetch %s. The available years are: %s.''
                                  [Strs (years conf), Strs (map snd index)]) s2)
                      else
                        poll_loop conf polls
                          (s2\<lparr>queue := queue s2 @ filter (\<lambda>job. fst job \<in> P) index\<rparr>))))"

section \<open>Inputs for the examples\<close>

text \<open>
  The options with the defaults of \<open>Config\<close> and of the command line. \<open>example_found\<close>
  stands for what the index pattern finds in the listing of the examples: one archive,
  the one of 1901.
\<close>

definition example_found :: "string \<Rightarrow> string list" where
  "example_found t = [''isd_1901_c20180826T025524.tar.gz'']"

definition example_conf :: Config where
  "example_conf =
     \<lparr>url = ''https://www.ncei.noaa.gov/data/global-hourly/archive/isd/'',
      index_regex = example_found,
      member_regex = re_match DEFAULT_MEMBER_REGEX,
      run_time_max = 300,
      workers_count = 2,
      years = [''1901'', ''1902''],
      force = False,
      tmp_dir = ''/tmp/noaa_stuff'',
      is_compress = False\<rparr>"

text \<open>A worker that has done nothing yet, in an empty working directory.\<close>

definition fresh :: wstate where
  "fresh = \<lparr>files = Map.empty, tmp_dirs = {}, tmp_files = Map.empty, queue_done = [], trace = []\<rparr>"

text \<open>The same with an output of an earlier run for 1901.\<close>

definition stale :: wstate where
  "stale = fresh\<lparr>files := [''./1901'' \<mapsto> ''earlier'']\<rparr>"

text \<open>
  A file system for the examples, for member names that are relative and have no \<open>..\<close>
  in them: the components of the name under the directory of the year, where an empty
  component and the component \<open>.\<close> count for nothing.
\<close>

definition example_locate :: locator where
  "example_locate year name =
     ''/tmp/noaa_stuff/'' @ year @
     concat (map (\<lambda>c. CHR ''/'' # c)
       (filter (\<lambda>c. c \<noteq> [] \<and> c \<noteq> ''.'') (split (CHR ''/'') name)))"

text \<open>A remote side that answers every request with the given status and archive.\<close>

definition serve :: "int \<Rightarrow> (string \<times> bytes) list option \<Rightarrow> string \<Rightarrow> response" where
  "serve st members u = \<lparr>status_code = st, body_text = [], raw = members\<rparr>"

text \<open>A turn of the poll loop in which the elapsed time is found to be two seconds, with
  all workers alive and no signal in the queue.\<close>

definition late :: poll where
  "late = \<lparr>elapsed = 2, is_alive = (\<lambda>w. True), arrived = []\<rparr>"

text \<open>A listing in which the index pattern finds the archive of 1902 only.\<close>

definition found_1902 :: "string \<Rightarrow> string list" where
  "found_1902 t = [''isd_1902_c20180826T025524.tar.gz'']"

section \<open>Properties of \<open>Config.normalize_years\<close>\<close>

lemma split_absent: "sep \<notin> set s \<Longrightarrow> split sep s = [s]"
  by (induction s) auto

lemma split_at_first: "sep \<notin> set a \<Longrightarrow> split sep (a @ sep # b) = a # split sep b"
  by (induction a) (auto split: list.splits)

lemma is_digit_code: "is_digit c \<longleftrightarrow> 48 \<le> (of_char c :: nat) \<and> (of_char c :: nat) \<le> 57"
  by (simp add: is_digit_def less_eq_char_def)

lemma digit_not_space: "is_digit c \<Longrightarrow> \<not> is_space c"
  by (auto simp: is_digit_code is_space_def Let_def)

lemma digit_not_sep:
  "is_digit c \<Longrightarrow> c \<noteq> CHR ''-'' \<and> c \<noteq> CHR '','' \<and> c \<noteq> CHR ''+'' \<and> c \<noteq> CHR ''_''"
  by (auto simp: is_digit_code)

lemma strip_digits:
  assumes "s \<noteq> []" and "\<forall>c\<in>set s. is_digit c"
  shows "strip s = s"
proof -
  have lead: "dropWhile is_space s = s"
    using assms by (cases s) (auto simp: digit_not_space)
  have trail: "dropWhile is_space (rev s) = rev s"
    using assms by (cases "rev s") (auto dest!: arg_cong[where f=set] simp: digit_not_space)
  show ?thesis by (simp add: strip_def lead trail)
qed

lemma digit_part_digits: "s \<noteq> [] \<Longrightarrow> \<forall>c\<in>set s. is_digit c \<Longrightarrow> digit_part s"
  by (induction s rule: digit_part.induct) (auto simp: digit_not_sep)

lemma py_int_digits:
  assumes "s \<noteq> []" and "\<forall>c\<in>set s. is_digit c"
  shows "py_int s = Some (dec_val s)"
proof -
  have h: "is_digit (hd s)" using assms by (cases s) auto
  have f: "filter is_digit s = s" using assms by (simp add: filter_id_conv)
  show ?thesis
    using assms h digit_not_sep[OF h]
    by (simp add: py_int_def strip_digits digit_part_digits f Let_def)
qed

lemma normalize_years_range:
  assumes "A \<noteq> []" "\<forall>c\<in>set A. is_digit c" "B \<noteq> []" "\<forall>c\<in>set B. is_digit c"
  shows "normalize_years (A @ ''-'' @ B) = Inr (sort (map py_str [dec_val A .. dec_val B]))"
proof -
  have nA: "CHR ''-'' \<notin> set A" "CHR '','' \<notin> set A" using assms(2) digit_not_sep by blast+
  have nB: "CHR ''-'' \<notin> set B" "CHR '','' \<notin> set B" using assms(4) digit_not_sep by blast+
  have sp: "split (CHR ''-'') (A @ CHR ''-'' # B) = [A, B]"
    using split_at_first[OF nA(1), of B] split_absent[OF nB(1)] by simp
  show ?thesis
    using nA nB
    by (simp add: normalize_years_def sp py_int_digits assms sorted_py_def py_range_def)
qed

lemma normalize_years_commas:
  assumes "CHR ''-'' \<notin> set inp"
  shows "normalize_years inp = Inr (sort (split (CHR '','') inp))"
  using assms by (auto simp: normalize_years_def sorted_py_def split_absent)

text \<open>
  Claim C10. For an input \<open>A-B\<close> of two decimal numerals, \<open>normalize_years\<close> returns the
  decimal strings of all the years from \<open>A\<close> to \<open>B\<close> inclusive, sorted as strings (and
  the empty list when \<open>A\<close> is greater than \<open>B\<close>); for an input without \<open>-\<close> it returns
  the sorted list of its comma-separated parts.
\<close>

theorem normalize_years_spec:
  "(A \<noteq> [] \<and> (\<forall>c\<in>set A. is_digit c) \<and> B \<noteq> [] \<and> (\<forall>c\<in>set B. is_digit c) \<longrightarrow>
      normalize_years (A @ ''-'' @ B) = Inr (sort (map py_str [dec_val A .. dec_val B]))) \<and>
   (CHR ''-'' \<notin> set inp \<longrightarrow> normalize_years inp = Inr (sort (split (CHR '','') inp)))"
  using normalize_years_range[of A B] normalize_years_commas[of inp] by blast

lemma years_1901_1903: "sort (map py_str [dec_val ''1901'' .. dec_val ''1903'']) = [''1901'', ''1902'', ''1903'']"
  by code_simp

lemma years_1902_1901: "sort (split (CHR '','') ''1902,1901'') = [''1901'', ''1902'']"
  by code_simp

theorem normalize_years_spec_witness:
  "list_all is_digit ''1901'' \<and> list_all is_digit ''1903'' \<and>
   normalize_years ''1901-1903'' = Inr [''1901'', ''1902'', ''1903''] \<and>
   CHR ''-'' \<notin> set ''1902,1901'' \<and>
   normalize_years ''1902,1901'' = Inr [''1901'', ''1902'']"
  using normalize_years_spec[of "''1901''" "''1903''" "''1902,1901''"]
  by (simp add: is_digit_code years_1901_1903 years_1902_1901)


section \<open>Properties of the matcher\<close>

text \<open>
  The matcher succeeds on a string exactly when the pattern matches one of its prefixes
  as a whole, which is what \<open>re.match\<close> tests; and the default member pattern matches
  as a whole the strings made of three groups of digits with a hyphen between them.
\<close>


lemma accepts_empty_lang: "accepts_empty r \<longleftrightarrow> [] \<in> lang r"
  by (induction r) (auto intro: star_empty)

lemma star_cons_split:
  "x \<in> star L \<Longrightarrow> x = c # u \<Longrightarrow> \<exists>v w. u = v @ w \<and> c # v \<in> L \<and> w \<in> star L"
proof (induction arbitrary: u rule: star.induct)
  case star_empty
  then show ?case by simp
next
  case (star_more x y)
  show ?case
  proof (cases x)
    case Nil
    with star_more show ?thesis by simp
  next
    case (Cons a x')
    with star_more have "a = c" "u = x' @ y" by simp_all
    with star_more Cons show ?thesis by blast
  qed
qed

lemma star_cons:
  "c # u \<in> star L \<longleftrightarrow> (\<exists>v w. u = v @ w \<and> c # v \<in> L \<and> w \<in> star L)"
proof
  assume "c # u \<in> star L"
  then show "\<exists>v w. u = v @ w \<and> c # v \<in> L \<and> w \<in> star L"
    by (rule star_cons_split) simp
next
  assume "\<exists>v w. u = v @ w \<and> c # v \<in> L \<and> w \<in> star L"
  then obtain v w where "u = v @ w" "c # v \<in> L" "w \<in> star L" by blast
  then show "c # u \<in> star L"
    using star_more[of "c # v" L w] by simp
qed


lemma after_lang: "u \<in> lang (after c r) \<longleftrightarrow> c # u \<in> lang r"
proof (induction r arbitrary: u)
  case Zero
  show ?case by simp
next
  case One
  show ?case by simp
next
  case Digit
  show ?case by auto
next
  case (Lit d)
  show ?case by auto
next
  case (Alt r1 r2)
  then show ?case by simp
next
  case (Seq r1 r2)
  have left: "u \<in> lang (Seq (after c r1) r2) \<longleftrightarrow>
              (\<exists>v w. c # u = (c # v) @ w \<and> c # v \<in> lang r1 \<and> w \<in> lang r2)"
    using Seq.IH(1) by auto
  have split: "c # u \<in> lang (Seq r1 r2) \<longleftrightarrow>
               ([] \<in> lang r1 \<and> c # u \<in> lang r2) \<or>
               (\<exists>v w. c # u = (c # v) @ w \<and> c # v \<in> lang r1 \<and> w \<in> lang r2)"
  proof
    assume "c # u \<in> lang (Seq r1 r2)"
    then obtain x w where xw: "c # u = x @ w" "x \<in> lang r1" "w \<in> lang r2" by auto
    show "([] \<in> lang r1 \<and> c # u \<in> lang r2) \<or>
          (\<exists>v w. c # u = (c # v) @ w \<and> c # v \<in> lang r1 \<and> w \<in> lang r2)"
    proof (cases x)
      case Nil
      with xw show ?thesis by simp
    next
      case (Cons a x')
      with xw have "a = c" by simp
      with xw Cons show ?thesis by blast
    qed
  next
    assume "([] \<in> lang r1 \<and> c # u \<in> lang r2) \<or>
            (\<exists>v w. c # u = (c # v) @ w \<and> c # v \<in> lang r1 \<and> w \<in> lang r2)"
    then show "c # u \<in> lang (Seq r1 r2)"
    proof
      assume "[] \<in> lang r1 \<and> c # u \<in> lang r2"
      then have "\<exists>x w. c # u = x @ w \<and> x \<in> lang r1 \<and> w \<in> lang r2"
        by (intro exI[of _ "[]"] exI[of _ "c # u"]) simp
      then show ?thesis by simp
    next
      assume "\<exists>v w. c # u = (c # v) @ w \<and> c # v \<in> lang r1 \<and> w \<in> lang r2"
      then have "\<exists>x w. c # u = x @ w \<and> x \<in> lang r1 \<and> w \<in> lang r2" by blast
      then show ?thesis by simp
    qed
  qed
  show ?case
  proof (cases "accepts_empty r1")
    case True
    then have "u \<in> lang (after c (Seq r1 r2)) \<longleftrightarrow>
               u \<in> lang (Seq (after c r1) r2) \<or> u \<in> lang (after c r2)"
      by simp
    with True show ?thesis
      using left split Seq.IH(2)[of u] accepts_empty_lang[of r1] by blast
  next
    case False
    then have "u \<in> lang (after c (Seq r1 r2)) \<longleftrightarrow> u \<in> lang (Seq (after c r1) r2)"
      by simp
    with False show ?thesis
      using left split accepts_empty_lang[of r1] by blast
  qed
next
  case (Star r)
  have "u \<in> lang (after c (Star r)) \<longleftrightarrow>
        (\<exists>v w. u = v @ w \<and> v \<in> lang (after c r) \<and> w \<in> star (lang r))"
    by auto
  also have "\<dots> \<longleftrightarrow> (\<exists>v w. u = v @ w \<and> c # v \<in> lang r \<and> w \<in> star (lang r))"
    using Star.IH by simp
  also have "\<dots> \<longleftrightarrow> c # u \<in> star (lang r)"
    by (rule star_cons[symmetric])
  finally show ?case by simp
qed


lemma re_match_lang: "re_match r s \<longleftrightarrow> (\<exists>u v. s = u @ v \<and> u \<in> lang r)"
proof (induction s arbitrary: r)
  case Nil
  then show ?case by (simp add: accepts_empty_lang)
next
  case (Cons c s)
  have "(\<exists>u v. c # s = u @ v \<and> u \<in> lang r) \<longleftrightarrow>
        [] \<in> lang r \<or> (\<exists>u v. s = u @ v \<and> c # u \<in> lang r)"
  proof
    assume "\<exists>u v. c # s = u @ v \<and> u \<in> lang r"
    then obtain u v where uv: "c # s = u @ v" "u \<in> lang r" by blast
    show "[] \<in> lang r \<or> (\<exists>u v. s = u @ v \<and> c # u \<in> lang r)"
    proof (cases u)
      case Nil
      with uv show ?thesis by simp
    next
      case (Cons a u')
      with uv have "a = c" "s = u' @ v" by simp_all
      with uv Cons show ?thesis by blast
    qed
  next
    assume "[] \<in> lang r \<or> (\<exists>u v. s = u @ v \<and> c # u \<in> lang r)"
    then show "\<exists>u v. c # s = u @ v \<and> u \<in> lang r"
    proof
      assume "[] \<in> lang r"
      then show ?thesis by (intro exI[of _ "[]"] exI[of _ "c # s"]) simp
    next
      assume "\<exists>u v. s = u @ v \<and> c # u \<in> lang r"
      then obtain u v where "s = u @ v" "c # u \<in> lang r" by blast
      then show ?thesis by (intro exI[of _ "c # u"] exI[of _ v]) simp
    qed
  qed
  then show ?case
    using Cons.IH[of "after c r"] by (simp add: accepts_empty_lang after_lang)
qed


lemma star_digits: "u \<in> star (lang Digit) \<longleftrightarrow> list_all is_digit u"
proof (induction u)
  case Nil
  show ?case by (simp add: star_empty)
next
  case (Cons c u)
  have "c # u \<in> star (lang Digit) \<longleftrightarrow>
        (\<exists>v w. u = v @ w \<and> c # v \<in> lang Digit \<and> w \<in> star (lang Digit))"
    by (rule star_cons)
  also have "\<dots> \<longleftrightarrow> is_digit c \<and> u \<in> star (lang Digit)"
    by auto
  finally show ?case using Cons.IH by simp
qed

lemma lang_many1_digit: "u \<in> lang (Many1 Digit) \<longleftrightarrow> u \<noteq> [] \<and> list_all is_digit u"
proof -
  have "u \<in> lang (Many1 Digit) \<longleftrightarrow> (\<exists>c w. u = c # w \<and> is_digit c \<and> w \<in> star (lang Digit))"
  proof
    assume "u \<in> lang (Many1 Digit)"
    then show "\<exists>c w. u = c # w \<and> is_digit c \<and> w \<in> star (lang Digit)"
      by (auto simp: Many1_def)
  next
    assume "\<exists>c w. u = c # w \<and> is_digit c \<and> w \<in> star (lang Digit)"
    then obtain c w where "u = [c] @ w" "is_digit c" "w \<in> star (lang Digit)" by auto
    then have "\<exists>x y. u = x @ y \<and> x \<in> lang Digit \<and> y \<in> star (lang Digit)"
      by (intro exI[of _ "[c]"] exI[of _ w]) auto
    then show "u \<in> lang (Many1 Digit)" by (simp add: Many1_def)
  qed
  also have "\<dots> \<longleftrightarrow> u \<noteq> [] \<and> list_all is_digit u"
    by (cases u) (auto simp: star_digits simp del: lang.simps)
  finally show ?thesis .
qed

lemma lang_default:
  "u \<in> lang DEFAULT_MEMBER_REGEX \<longleftrightarrow>
   (\<exists>a b c. u = a @ ''-'' @ b @ ''-'' @ c \<and>
      a \<noteq> [] \<and> list_all is_digit a \<and> b \<noteq> [] \<and> list_all is_digit b \<and>
      c \<noteq> [] \<and> list_all is_digit c)"
proof -
  have "u \<in> lang DEFAULT_MEMBER_REGEX \<longleftrightarrow>
        (\<exists>a b c. u = a @ ''-'' @ b @ ''-'' @ c \<and>
           a \<in> lang (Many1 Digit) \<and> b \<in> lang (Many1 Digit) \<and> c \<in> lang (Many1 Digit))"
    unfolding DEFAULT_MEMBER_REGEX_def lang.simps(6)[of "Many1 Digit"] lang.simps(6)[of "Lit _"] lang.simps(4)
    by (simp, blast)
  then show ?thesis by (simp add: lang_many1_digit)
qed

lemma default_member_regex_matches:
  "re_match DEFAULT_MEMBER_REGEX name \<longleftrightarrow>
   (\<exists>a b c rest. name = a @ ''-'' @ b @ ''-'' @ c @ rest \<and>
      a \<noteq> [] \<and> list_all is_digit a \<and> b \<noteq> [] \<and> list_all is_digit b \<and>
      c \<noteq> [] \<and> list_all is_digit c)"
proof -
  have "re_match DEFAULT_MEMBER_REGEX name \<longleftrightarrow>
        (\<exists>u rest. name = u @ rest \<and> u \<in> lang DEFAULT_MEMBER_REGEX)"
    by (rule re_match_lang)
  also have "\<dots> \<longleftrightarrow>
     (\<exists>a b c rest. name = (a @ ''-'' @ b @ ''-'' @ c) @ rest \<and>
        a \<noteq> [] \<and> list_all is_digit a \<and> b \<noteq> [] \<and> list_all is_digit b \<and>
        c \<noteq> [] \<and> list_all is_digit c)"
    unfolding lang_default by blast
  finally show ?thesis by simp
qed

section \<open>Properties of \<open>Worker.run\<close>\<close>

text \<open>
  Claim C1. When the GET of the archive answers with a status outside 200 to 299, the turn
  ends without an exception, with one completion signal for the year added and a warning
  logged; the request is the only thing done: no file, no directory and no extracted file
  changes, the body is not read and nothing is extracted.
\<close>

theorem run_job_bad_status:
  assumes "\<not> (200 \<le> status_code (get (url conf @ filename)) \<and>
              status_code (get (url conf @ filename)) < 300)"
  shows "run_job conf get locate (year, filename) s =
         (None, s\<lparr>queue_done := queue_done s @ [year],
                  trace := trace s @
                    [Log INFO ''Fetching %s'' [Str (url conf @ filename)],
                     Get (url conf @ filename),
                     Log WARNING ''Cannot download %s for some reason'' [Str filename]]\<rparr>)"
  using assms by (simp add: run_job_def Let_def emit_def put_done_def)

theorem run_job_bad_status_witness:
  "status_code (serve 500 None (url example_conf @ ''isd_1901_c20180826T025524.tar.gz'')) = 500 \<and>
   fst (run_job example_conf (serve 500 None) example_locate (''1901'', ''isd_1901_c20180826T025524.tar.gz'') fresh) = None \<and>
   queue_done (snd (run_job example_conf (serve 500 None) example_locate (''1901'', ''isd_1901_c20180826T025524.tar.gz'') fresh)) = [''1901''] \<and>
   files (snd (run_job example_conf (serve 500 None) example_locate (''1901'', ''isd_1901_c20180826T025524.tar.gz'') fresh)) = Map.empty"
  using run_job_bad_status[where get = "serve 500 None" and conf = example_conf
      and filename = "''isd_1901_c20180826T025524.tar.gz''" and year = "''1901''" and s = fresh
      and locate = example_locate]
  by (simp add: serve_def fresh_def)



section \<open>Properties of \<open>Master.start\<close>\<close>

lemma drain_eq: "drain sigs P = P - set sigs"
  by (induction sigs arbitrary: P) (auto simp: discard_def)

lemma removals_set: "set (removals sigs P) = P \<inter> set sigs"
  by (induction sigs arbitrary: P) (auto simp: discard_def)

lemma removals_distinct: "distinct (removals sigs P)"
  by (induction sigs arbitrary: P) (auto simp: discard_def removals_set)

text \<open>
  Claim C2. Whatever signals a drain takes from the queue, it removes each year from the
  pending set at most once: the years really removed are pairwise different, they are the
  signalled years that were pending, and what is left is the pending set without the
  signalled years. To discard a year that is absent changes nothing, so that a signal
  that comes twice counts once.
\<close>

theorem drain_removes_once:
  "distinct (removals sigs P) \<and> set (removals sigs P) = P \<inter> set sigs \<and>
   drain sigs P = P - set sigs \<and>
   (year \<notin> P \<longrightarrow> discard year P = P) \<and>
   discard year (discard year P) = discard year P"
  by (auto simp: removals_distinct removals_set drain_eq discard_def)

theorem drain_removes_once_witness:
  "removals [''1901'', ''1901'', ''1902''] {''1901'', ''1902'', ''1903''} = [''1901'', ''1902''] \<and>
   drain [''1901'', ''1901'', ''1902''] {''1901'', ''1902'', ''1903''} = {''1903''} \<and>
   ''1901'' \<notin> {''1902'', ''1903''} \<and>
   discard ''1901'' {''1902'', ''1903''} = {''1902'', ''1903''}"
  using drain_removes_once[of "[''1901'', ''1901'', ''1902'']" "{''1901'', ''1902'', ''1903''}" "''1901''"]
    drain_removes_once[of "[]" "{''1902'', ''1903''}" "''1901''"]
  by (auto simp: discard_def)


lemma spawn_workers: "workers (spawn ns s) = foldl (\<lambda>ws k. ws[k := Some k]) (workers s) ns"
  by (induction ns arbitrary: s) auto

lemma spawn_frame:
  "queue (spawn ns s) = queue s \<and> pending (spawn ns s) = pending s \<and> logged (spawn ns s) = logged s"
  by (induction ns arbitrary: s) auto

lemma fill_slots:
  "length ws = n \<Longrightarrow> m \<le> n \<Longrightarrow>
   foldl (\<lambda>ws k. ws[k := Some k]) ws [0..<m] = map Some [0..<m] @ drop m ws"
proof (induction m)
  case 0
  then show ?case by simp
next
  case (Suc m)
  then have "foldl (\<lambda>ws k. ws[k := Some k]) ws [0..<Suc m] =
             (map Some [0..<m] @ drop m ws)[m := Some m]"
    by simp
  also have "\<dots> = map Some [0..<m] @ (drop m ws)[0 := Some m]"
    by (simp add: list_update_append)
  also have "(drop m ws)[0 := Some m] = Some m # drop (Suc m) ws"
    using Suc.prems by (cases "drop m ws") (auto simp: drop_Suc drop_tl)
  finally show ?case by simp
qed

lemma spawn_all:
  "spawn [0..<nat (workers_count conf)] (Master conf) =
   \<lparr>workers = map Some [0..<nat (workers_count conf)], queue = [], pending = {}, logged = []\<rparr>"
proof -
  have "workers (spawn [0..<nat (workers_count conf)] (Master conf)) =
        map Some [0..<nat (workers_count conf)]"
    using fill_slots[of "replicate (nat (workers_count conf)) None" "nat (workers_count conf)"
        "nat (workers_count conf)"]
    by (simp add: spawn_workers Master_def)
  then show ?thesis
    using spawn_frame[of "[0..<nat (workers_count conf)]" "Master conf"]
    by (cases "spawn [0..<nat (workers_count conf)] (Master conf)") (simp add: Master_def)
qed

lemma start_http_error:
  assumes "400 \<le> status_code (get (url conf))" and "status_code (get (url conf)) < 600"
  shows "start conf get polls =
         (Some (Inl (HTTPError (status_code (get (url conf))))), Master conf)"
  using assms by (simp add: start_def Let_def raise_for_status_def)

lemma poll_loop_running: "poll_loop conf pre s = (None, s') \<Longrightarrow> pending s' \<noteq> {}"
  by (induction conf pre s rule: poll_loop.induct)
     (auto split: if_splits sum.splits bool.splits simp: Let_def)

lemma poll_loop_deadline:
  assumes "poll_loop conf pre s = (None, s')"
    and "elapsed p > real_of_int (run_time_max conf)"
  shows "poll_loop conf (pre @ p # ps) s =
         (Some (Inl (RuntimeError ''There is some dangling work.'')), s')"
  using assms
  by (induction conf pre s rule: poll_loop.induct)
     (auto split: if_splits sum.splits bool.splits simp: Let_def)

text \<open>
  Claim C3, as the code has it. In whatever turn of the poll loop the elapsed time, as the
  code computes it, exceeds \<open>run_time_max\<close> while years are still pending,
  \<open>start\<close> raises the \<open>RuntimeError\<close> of the deadline; the error is the fixed message
  and carries no year. \<open>start \<dots> pre = (None, s')\<close> says that the loop is still running
  after the turns \<open>pre\<close>, with \<open>pending s'\<close> not empty.
\<close>

theorem start_deadline:
  assumes "start conf get pre = (None, s')"
    and "elapsed p > real_of_int (run_time_max conf)"
  shows "start conf get (pre @ p # ps) =
           (Some (Inl (RuntimeError ''There is some dangling work.'')), s') \<and>
         pending s' \<noteq> {}"
proof -
  from assms(1) obtain s where
    s: "\<And>polls. start conf get polls = poll_loop conf polls s"
    by (auto simp: start_def Let_def split: option.splits sum.splits if_splits)
  with assms(1) have run: "poll_loop conf pre s = (None, s')" by simp
  show ?thesis
    using poll_loop_deadline[OF run assms(2)] poll_loop_running[OF run] by (simp add: s)
qed

lemma start_example_running:
  "start (example_conf\<lparr>run_time_max := 1\<rparr>) (serve 200 None) [] =
   (None, \<lparr>workers = [Some 0, Some 1],
           queue = [(''1901'', ''isd_1901_c20180826T025524.tar.gz'')],
           pending = {''1901''}, logged = []\<rparr>)"
  by (simp add: start_def Let_def example_conf_def serve_def example_found_def
      raise_for_status_def Master_def numeral_2_eq_2 upt_rec)

theorem start_deadline_witness:
  "start (example_conf\<lparr>run_time_max := 1\<rparr>) (serve 200 None) [] =
     (None, \<lparr>workers = [Some 0, Some 1],
             queue = [(''1901'', ''isd_1901_c20180826T025524.tar.gz'')],
             pending = {''1901''}, logged = []\<rparr>) \<and>
   elapsed late > real_of_int (run_time_max (example_conf\<lparr>run_time_max := 1\<rparr>)) \<and>
   start (example_conf\<lparr>run_time_max := 1\<rparr>) (serve 200 None) [late] =
     (Some (Inl (RuntimeError ''There is some dangling work.'')),
      \<lparr>workers = [Some 0, Some 1],
       queue = [(''1901'', ''isd_1901_c20180826T025524.tar.gz'')],
       pending = {''1901''}, logged = []\<rparr>)"
proof -
  have h: "elapsed late > real_of_int (run_time_max (example_conf\<lparr>run_time_max := 1\<rparr>))"
    by (simp add: late_def)
  show ?thesis
    using start_deadline[OF start_example_running h, of "[]"] h start_example_running
    by simp
qed

text \<open>
  The claim as the specification has it fails: with 1901 pending and with 1902 pending
  the deadline raises one and the same error, which therefore does not tell the years
  that are still pending.
\<close>

theorem deadline_error_counterexample:
  "fst (start (example_conf\<lparr>run_time_max := 1\<rparr>) (serve 200 None) [late]) =
     Some (Inl (RuntimeError ''There is some dangling work.'')) \<and>
   pending (snd (start (example_conf\<lparr>run_time_max := 1\<rparr>) (serve 200 None) [late])) = {''1901''} \<and>
   fst (start (example_conf\<lparr>run_time_max := 1, index_regex := found_1902\<rparr>) (serve 200 None) [late]) =
     Some (Inl (RuntimeError ''There is some dangling work.'')) \<and>
   pending (snd (start (example_conf\<lparr>run_time_max := 1, index_regex := found_1902\<rparr>) (serve 200 None) [late])) = {''1902''}"
  by (simp add: start_def Let_def example_conf_def serve_def example_found_def found_1902_def
      raise_for_status_def Master_def numeral_2_eq_2 upt_rec late_def)

text \<open>
  Claim C5 fails on the code for a status that is neither a success nor an error of the
  client or the server. With status 300 and a listing that names the archive of 1901,
  \<open>start\<close> raises nothing: both workers are started, the job of 1901 is on the queue
  and the poll loop is running.
\<close>

theorem start_status_300_goes_on:
  "\<not> (200 \<le> status_code (serve 300 None (url example_conf)) \<and>
       status_code (serve 300 None (url example_conf)) < 300) \<and>
   start example_conf (serve 300 None) [] =
     (None, \<lparr>workers = [Some 0, Some 1],
             queue = [(''1901'', ''isd_1901_c20180826T025524.tar.gz'')],
             pending = {''1901''}, logged = []\<rparr>)"
  by (simp add: start_def Let_def example_conf_def serve_def example_found_def
      raise_for_status_def Master_def numeral_2_eq_2 upt_rec)

text \<open>
  Claim C6. When the index was fetched and built and none of the requested years is a key
  of it, \<open>start\<close> raises the \<open>RuntimeError\<close> that there is nothing to do. By then every
  one of the \<open>workers_count\<close> workers has been started and the job queue is empty. The
  requested years, none of which is available, are listed by the warning logged just
  before, together with the archives of the index; the error itself has a fixed message.
\<close>

theorem start_nothing_to_do:
  assumes "\<not> (400 \<le> status_code (get (url conf)) \<and> status_code (get (url conf)) < 600)"
    and "build_index (index_regex conf (body_text (get (url conf)))) [] = Inr index"
    and "set (years conf) \<inter> fst ` set index = {}"
  shows "start conf get polls =
     (Some (Inl (RuntimeError ''There is nothing to do.'')),
      \<lparr>workers = map Some [0..<nat (workers_count conf)], queue = [], pending = {},
       logged = [Log WARNING ''Cannot fetch %s. The available years are: %s.''
                  [Strs (years conf), Strs (map snd index)]]\<rparr>)"
proof -
  have none: "filter (\<lambda>year. year \<in> fst ` set index) (years conf) = []"
    using assms(3) by (auto simp: filter_empty_conv)
  show ?thesis
    using assms(1,2) by (simp add: start_def Let_def raise_for_status_def none spawn_all log_m_def)
qed

lemma index_of_example:
  "build_index (index_regex example_conf (body_text (serve 200 None (url example_conf)))) [] =
   Inr [(''1901'', ''isd_1901_c20180826T025524.tar.gz'')]"
  by (simp add: example_conf_def example_found_def)

theorem start_nothing_to_do_witness:
  "status_code (serve 200 None (url (example_conf\<lparr>years := [''1903'']\<rparr>))) = 200 \<and>
   set (years (example_conf\<lparr>years := [''1903'']\<rparr>)) \<inter> fst ` set [(''1901'', ''isd_1901_c20180826T025524.tar.gz'')] = {} \<and>
   start (example_conf\<lparr>years := [''1903'']\<rparr>) (serve 200 None) [] =
     (Some (Inl (RuntimeError ''There is nothing to do.'')),
      \<lparr>workers = [Some 0, Some 1], queue = [], pending = {},
       logged = [Log WARNING ''Cannot fetch %s. The available years are: %s.''
                  [Strs [''1903''], Strs [''isd_1901_c20180826T025524.tar.gz'']]]\<rparr>)"
proof -
  have a: "\<not> (400 \<le> status_code (serve 200 None (url (example_conf\<lparr>years := [''1903'']\<rparr>))) \<and>
              status_code (serve 200 None (url (example_conf\<lparr>years := [''1903'']\<rparr>))) < 600)"
    by (simp add: serve_def)
  have b: "build_index (index_regex (example_conf\<lparr>years := [''1903'']\<rparr>)
             (body_text (serve 200 None (url (example_conf\<lparr>years := [''1903'']\<rparr>))))) [] =
           Inr [(''1901'', ''isd_1901_c20180826T025524.tar.gz'')]"
    using index_of_example by simp
  have c: "set (years (example_conf\<lparr>years := [''1903'']\<rparr>)) \<inter>
           fst ` set [(''1901'', ''isd_1901_c20180826T025524.tar.gz'')] = {}"
    by simp
  have w: "map Some [0..<nat (workers_count (example_conf\<lparr>years := [''1903'']\<rparr>))] = [Some 0, Some 1]"
    by (simp add: example_conf_def numeral_2_eq_2 upt_rec)
  show ?thesis
    using start_nothing_to_do[where get = "serve 200 None"
        and conf = "example_conf\<lparr>years := [''1903'']\<rparr>"
        and index = "[(''1901'', ''isd_1901_c20180826T025524.tar.gz'')]"
        and polls = "[]"] a b c w
    by (simp add: serve_def)
qed


section \<open>Properties of the extraction and the aggregation\<close>

lemma extractall_frame:
  "files (extractall locate y ms s) = files s \<and> tmp_dirs (extractall locate y ms s) = tmp_dirs s \<and>
   queue_done (extractall locate y ms s) = queue_done s \<and> trace (extractall locate y ms s) = trace s"
  by (induction ms arbitrary: s) auto

lemma extractall_tmp:
  "tmp_files (extractall locate y ms s) p =
     (case map_of (rev (map (\<lambda>m. (locate y (fst m), snd m)) ms)) p of
        None \<Rightarrow> tmp_files s p | Some b \<Rightarrow> Some b)"
proof (induction ms arbitrary: s)
  case Nil
  then show ?case by simp
next
  case (Cons m ms)
  show ?case
    by (simp add: Cons.IH map_add_def split: option.splits)
qed

lemma aggregate_spec:
  assumes "map (\<lambda>n. tmp_files s (locate year n)) names = map Some bs" "files s result = Some old"
  shows "fst (aggregate locate year result names s) = None \<and>
         files (snd (aggregate locate year result names s)) = (files s)(result \<mapsto> old @ concat bs) \<and>
         tmp_files (snd (aggregate locate year result names s)) = tmp_files s \<and>
         tmp_dirs (snd (aggregate locate year result names s)) = tmp_dirs s \<and>
         queue_done (snd (aggregate locate year result names s)) = queue_done s"
  using assms
proof (induction names arbitrary: s bs old)
  case Nil
  then show ?case by (auto simp: fun_upd_idem)
next
  case (Cons n names)
  then obtain b bs' where bs: "bs = b # bs'" "tmp_files s (locate year n) = Some b"
    "map (\<lambda>n. tmp_files s (locate year n)) names = map Some bs'"
    by (cases bs) auto
  let ?s = "fd_write result b (emit (Log INFO ''Aggregating %s into %s'' [Str n, Str result]) s)"
  have t: "tmp_files ?s = tmp_files s" "files ?s = (files s)(result \<mapsto> old @ b)"
    "tmp_dirs ?s = tmp_dirs s" "queue_done ?s = queue_done s"
    using Cons.prems(2) by (simp_all add: fd_write_def emit_def)
  have step: "aggregate locate year result (n # names) s = aggregate locate year result names ?s"
    using bs(2) by (simp add: Let_def emit_def)
  have ih: "fst (aggregate locate year result names ?s) = None \<and>
         files (snd (aggregate locate year result names ?s)) =
           (files ?s)(result \<mapsto> (old @ b) @ concat bs') \<and>
         tmp_files (snd (aggregate locate year result names ?s)) = tmp_files ?s \<and>
         tmp_dirs (snd (aggregate locate year result names ?s)) = tmp_dirs ?s \<and>
         queue_done (snd (aggregate locate year result names ?s)) = queue_done ?s"
    by (rule Cons.IH) (simp_all add: t bs(3))
  show ?case
    unfolding step using ih by (simp add: t bs(1))
qed



lemma map_Some_the: "\<forall>n\<in>set ns. f n \<noteq> None \<Longrightarrow> map f ns = map Some (map (\<lambda>n. the (f n)) ns)"
  by (induction ns) auto

lemma extract_and_aggregate_spec:
  assumes raw: "raw res = Some ms" and absent: "files s3 (result_path conf year) = None"
  shows "fst (extract_and_aggregate conf locate res (year, filename) s3) = None"
    and "queue_done (snd (extract_and_aggregate conf locate res (year, filename) s3)) =
         queue_done s3 @ [year]"
    and "files (snd (extract_and_aggregate conf locate res (year, filename) s3)) =
         (files s3)(result_path conf year \<mapsto>
            concat (map (\<lambda>n. the (map_of (rev (map (\<lambda>m. (locate year (fst m), snd m)) ms)) (locate year n)))
              (filter (member_regex conf) (map fst ms))))"
    and "\<forall>n\<in>set (filter (member_regex conf) (map fst ms)).
           tmp_files (snd (extract_and_aggregate conf locate res (year, filename) s3)) (locate year n) =
             map_of (rev (map (\<lambda>m. (locate year (fst m), snd m)) ms)) (locate year n) \<and>
           map_of (rev (map (\<lambda>m. (locate year (fst m), snd m)) ms)) (locate year n) \<noteq> None"
proof -
  let ?result = "result_path conf year"
  let ?data = "filter (member_regex conf) (map fst ms)"
  let ?pl = "map (\<lambda>m. (locate year (fst m), snd m)) ms"
  let ?r = "extract_and_aggregate conf locate res (year, filename) s3"
  let ?s5 = "emit (Read_body (url conf @ filename)) (emit (Log INFO ''Dumping %s into %s''
                 [Str filename, Str (tmp_dir conf @ ''/'' @ year)]) (mkdir year s3))"
  let ?s7 = "open_append ?result (emit (Extractall year) (extractall locate year ms ?s5))"
  let ?bs = "map (\<lambda>n. the (map_of (rev ?pl) (locate year n))) ?data"
  have f7: "files ?s7 = (files s3)(?result \<mapsto> [])" "files ?s7 ?result = Some []"
    using absent by (simp_all add: open_append_def emit_def mkdir_def extractall_frame)
  have t7: "tmp_files ?s7 p =
            (case map_of (rev ?pl) p of None \<Rightarrow> tmp_files s3 p | Some b \<Rightarrow> Some b)" for p
  proof -
    have "tmp_files ?s7 p = tmp_files (extractall locate year ms ?s5) p"
      by (simp add: open_append_def emit_def)
    also have "\<dots> = (case map_of (rev ?pl) p of None \<Rightarrow> tmp_files ?s5 p | Some b \<Rightarrow> Some b)"
      by (rule extractall_tmp)
    also have "tmp_files ?s5 p = tmp_files s3 p"
      by (simp add: emit_def mkdir_def)
    finally show ?thesis .
  qed
  have q7: "queue_done ?s7 = queue_done s3"
    by (simp add: open_append_def emit_def extractall_frame mkdir_def)
  have dom: "\<forall>n\<in>set ?data. map_of (rev ?pl) (locate year n) \<noteq> None"
  proof
    fix n assume "n \<in> set ?data"
    then have "n \<in> fst ` set ms" by auto
    then have "locate year n \<in> fst ` set (rev ?pl)" by force
    then show "map_of (rev ?pl) (locate year n) \<noteq> None"
      unfolding map_of_eq_None_iff by simp
  qed
  have same: "\<forall>n\<in>set ?data. tmp_files ?s7 (locate year n) = map_of (rev ?pl) (locate year n)"
  proof
    fix n assume "n \<in> set ?data"
    with dom obtain b where "map_of (rev ?pl) (locate year n) = Some b" by blast
    then show "tmp_files ?s7 (locate year n) = map_of (rev ?pl) (locate year n)"
      using t7[of "locate year n"] by simp
  qed
  have "map (\<lambda>n. tmp_files ?s7 (locate year n)) ?data =
        map (\<lambda>n. map_of (rev ?pl) (locate year n)) ?data"
    using same by (auto intro!: map_cong)
  also have "\<dots> = map Some ?bs"
    using dom map_Some_the[of ?data "\<lambda>n. map_of (rev ?pl) (locate year n)"] by simp
  finally have pre: "map (\<lambda>n. tmp_files ?s7 (locate year n)) ?data = map Some ?bs" .
  note agg = aggregate_spec[where locate = locate and year = year and names = ?data
      and s = ?s7 and bs = ?bs and result = ?result and old = "[]", OF pre f7(2)]
  from agg have a1: "fst (aggregate locate year ?result ?data ?s7) = None" by simp
  from agg have a2: "files (snd (aggregate locate year ?result ?data ?s7)) =
                     (files ?s7)(?result \<mapsto> [] @ concat ?bs)" by simp
  from agg have a3: "tmp_files (snd (aggregate locate year ?result ?data ?s7)) = tmp_files ?s7" by simp
  from agg have a4: "queue_done (snd (aggregate locate year ?result ?data ?s7)) = queue_done ?s7" by simp
  have r': "?r = (None, put_done year (snd (aggregate locate year ?result ?data ?s7)))"
    using raw a1 by (simp add: extract_and_aggregate_def Let_def)
  show "fst ?r = None" by (simp add: r')
  show "queue_done (snd ?r) = queue_done s3 @ [year]"
    using a4 q7 by (simp add: r' put_done_def)
  show "files (snd ?r) = (files s3)(?result \<mapsto> concat ?bs)"
    using a2 f7(1) by (simp add: r' put_done_def)
  show "\<forall>n\<in>set ?data. tmp_files (snd ?r) (locate year n) = map_of (rev ?pl) (locate year n) \<and>
          map_of (rev ?pl) (locate year n) \<noteq> None"
    using same dom a3 by (simp add: r' put_done_def)
qed

lemma run_job_cases:
  assumes ok: "200 \<le> status_code (get (url conf @ filename))"
      "status_code (get (url conf @ filename)) < 300"
    and go: "\<not> (isfile s (result_path conf year) \<and> \<not> force conf)"
  shows "\<exists>s3. run_job conf get locate (year, filename) s =
               extract_and_aggregate conf locate (get (url conf @ filename)) (year, filename) s3 \<and>
          files s3 = (files s)(result_path conf year := None) \<and> queue_done s3 = queue_done s \<and>
          tmp_files s3 = tmp_files s"
proof (cases "isfile s (result_path conf year)")
  case True
  with go have "force conf" by simp
  with True ok show ?thesis
    by (intro exI[of _ "remove (result_path conf year)
          (emit (Log INFO ''The ./%s.txt is already exists; removing'' [Str year])
            (emit (Get (url conf @ filename))
              (emit (Log INFO ''Fetching %s'' [Str (url conf @ filename)]) s)))"])
       (simp add: run_job_def Let_def isfile_def emit_def remove_def)
next
  case False
  with ok show ?thesis
    by (intro exI[of _ "emit (Get (url conf @ filename))
          (emit (Log INFO ''Fetching %s'' [Str (url conf @ filename)]) s)"])
       (auto simp add: run_job_def Let_def isfile_def emit_def)
qed

lemma run_job_complete:
  assumes ok: "200 \<le> status_code (get (url conf @ filename))"
      "status_code (get (url conf @ filename)) < 300"
    and raw: "raw (get (url conf @ filename)) = Some ms"
    and go: "\<not> (isfile s (result_path conf year) \<and> \<not> force conf)"
  shows "fst (run_job conf get locate (year, filename) s) = None"
    and "queue_done (snd (run_job conf get locate (year, filename) s)) = queue_done s @ [year]"
    and "files (snd (run_job conf get locate (year, filename) s)) =
         (files s)(result_path conf year \<mapsto>
            concat (map (\<lambda>n. the (map_of (rev (map (\<lambda>m. (locate year (fst m), snd m)) ms)) (locate year n)))
              (filter (member_regex conf) (map fst ms))))"
    and "\<forall>n\<in>set (filter (member_regex conf) (map fst ms)).
           tmp_files (snd (run_job conf get locate (year, filename) s)) (locate year n) =
             map_of (rev (map (\<lambda>m. (locate year (fst m), snd m)) ms)) (locate year n) \<and>
           map_of (rev (map (\<lambda>m. (locate year (fst m), snd m)) ms)) (locate year n) \<noteq> None"
proof -
  obtain s3 where s3: "run_job conf get locate (year, filename) s =
       extract_and_aggregate conf locate (get (url conf @ filename)) (year, filename) s3"
     "files s3 = (files s)(result_path conf year := None)" "queue_done s3 = queue_done s"
    using run_job_cases[where get=get and conf=conf and filename=filename and s=s and year=year
        and locate=locate] ok go
    by blast
  have absent: "files s3 (result_path conf year) = None" by (simp add: s3(2))
  note e = extract_and_aggregate_spec[OF raw absent, of locate filename]
  show "fst (run_job conf get locate (year, filename) s) = None" using e(1) by (simp add: s3(1))
  show "queue_done (snd (run_job conf get locate (year, filename) s)) = queue_done s @ [year]"
    using e(2) by (simp add: s3(1,3))
  show "files (snd (run_job conf get locate (year, filename) s)) =
         (files s)(result_path conf year \<mapsto>
            concat (map (\<lambda>n. the (map_of (rev (map (\<lambda>m. (locate year (fst m), snd m)) ms)) (locate year n)))
              (filter (member_regex conf) (map fst ms))))"
    using e(3) by (simp add: s3(1,2))
  show "\<forall>n\<in>set (filter (member_regex conf) (map fst ms)).
           tmp_files (snd (run_job conf get locate (year, filename) s)) (locate year n) =
             map_of (rev (map (\<lambda>m. (locate year (fst m), snd m)) ms)) (locate year n) \<and>
           map_of (rev (map (\<lambda>m. (locate year (fst m), snd m)) ms)) (locate year n) \<noteq> None"
    using e(4) by (simp add: s3(1))
qed





lemma member_1901: "re_match DEFAULT_MEMBER_REGEX ''010010-99999-1901''"
  by code_simp

lemma member_short: "\<not> re_match DEFAULT_MEMBER_REGEX ''010010-99999''"
  by code_simp

lemma member_readme: "\<not> re_match DEFAULT_MEMBER_REGEX ''README.txt''"
  by code_simp


lemma member_dotted: "\<not> re_match DEFAULT_MEMBER_REGEX ''./010010-99999-1901''"
  by code_simp

lemma place_1901:
  "example_locate ''1901'' ''010010-99999-1901'' = ''/tmp/noaa_stuff/1901/010010-99999-1901''"
  by (simp add: example_locate_def)

lemma place_dotted:
  "example_locate ''1901'' ''./010010-99999-1901'' = ''/tmp/noaa_stuff/1901/010010-99999-1901''"
  by (simp add: example_locate_def)

lemma place_other:
  "example_locate ''1901'' ''010020-99999-1901'' = ''/tmp/noaa_stuff/1901/010020-99999-1901''"
  by (simp add: example_locate_def)

lemma place_short:
  "example_locate ''1901'' ''010010-99999'' = ''/tmp/noaa_stuff/1901/010010-99999''"
  by (simp add: example_locate_def)

lemma place_readme:
  "example_locate ''1901'' ''README.txt'' = ''/tmp/noaa_stuff/1901/README.txt''"
  by (simp add: example_locate_def)

lemmas places = place_1901 place_dotted place_other place_short place_readme

lemmas run_job_unfold =
  run_job_def extract_and_aggregate_def Let_def example_conf_def serve_def fresh_def stale_def
  emit_def isfile_def result_path_def mkdir_def open_append_def fd_write_def put_done_def
  remove_def



text \<open>
  Different names are not enough: \<open>010010-99999-1901\<close> and \<open>./010010-99999-1901\<close> denote
  one file, the second member overwrites the first, and the output, which the first name
  alone selects, holds the content of the second.
\<close>

lemma aliased_members_example:
  "''010010-99999-1901'' \<noteq> ''./010010-99999-1901'' \<and>
   files (snd (run_job example_conf
      (serve 200 (Some [(''010010-99999-1901'', ''a''), (''./010010-99999-1901'', ''b'')]))
      example_locate (''1901'', ''isd_1901_c20180826T025524.tar.gz'') fresh)) ''./1901'' = Some ''b''"
  by (simp add: run_job_unfold member_1901 member_dotted places del: re_match.simps)

text \<open>
  Claim C8, as the code has it. The default member pattern selects a name exactly when
  the name starts with three groups of digits with a hyphen between them: it selects
  \<open>010010-99999-1901\<close> and neither \<open>010010-99999\<close> nor \<open>README.txt\<close>. So for the year
  1901 and an archive of the two members \<open>010010-99999-1901\<close> and \<open>README.txt\<close> the
  output \<open>./1901\<close> holds exactly the bytes of the extracted file of the first, which are
  the bytes of that member as the two names are two files on disk; with \<open>010010-99999\<close>
  in its place the output is created empty.
\<close>

theorem default_pattern_selects:
  assumes "member_regex conf = re_match DEFAULT_MEMBER_REGEX" and "\<not> is_compress conf"
    and "200 \<le> status_code (get (url conf @ filename))"
    and "status_code (get (url conf @ filename)) < 300"
    and "\<not> (isfile s ''./1901'' \<and> \<not> force conf)"
  shows "(re_match DEFAULT_MEMBER_REGEX name \<longleftrightarrow>
            (\<exists>a b c rest. name = a @ ''-'' @ b @ ''-'' @ c @ rest \<and>
               a \<noteq> [] \<and> list_all is_digit a \<and> b \<noteq> [] \<and> list_all is_digit b \<and>
               c \<noteq> [] \<and> list_all is_digit c)) \<and>
         re_match DEFAULT_MEMBER_REGEX ''010010-99999-1901'' \<and>
         \<not> re_match DEFAULT_MEMBER_REGEX ''010010-99999'' \<and>
         \<not> re_match DEFAULT_MEMBER_REGEX ''README.txt'' \<and>
         (raw (get (url conf @ filename)) = Some [(''010010-99999-1901'', b), (''README.txt'', c)] \<longrightarrow>
            fst (run_job conf get locate (''1901'', filename) s) = None \<and>
            files (snd (run_job conf get locate (''1901'', filename) s)) ''./1901'' =
              tmp_files (snd (run_job conf get locate (''1901'', filename) s))
                (locate ''1901'' ''010010-99999-1901'') \<and>
            (locate ''1901'' ''010010-99999-1901'' \<noteq> locate ''1901'' ''README.txt'' \<longrightarrow>
               files (snd (run_job conf get locate (''1901'', filename) s)) ''./1901'' = Some b)) \<and>
         (raw (get (url conf @ filename)) = Some [(''010010-99999'', b), (''README.txt'', c)] \<longrightarrow>
            fst (run_job conf get locate (''1901'', filename) s) = None \<and>
            files (snd (run_job conf get locate (''1901'', filename) s)) ''./1901'' = Some [])"
proof -
  have p: "result_path conf ''1901'' = ''./1901''"
    using assms(2) by (simp add: result_path_def)
  have go: "\<not> (isfile s (result_path conf ''1901'') \<and> \<not> force conf)"
    using assms(5) by (simp add: p)
  have one: "fst (run_job conf get locate (''1901'', filename) s) = None \<and>
             files (snd (run_job conf get locate (''1901'', filename) s)) ''./1901'' =
               tmp_files (snd (run_job conf get locate (''1901'', filename) s))
                 (locate ''1901'' ''010010-99999-1901'') \<and>
             (locate ''1901'' ''010010-99999-1901'' \<noteq> locate ''1901'' ''README.txt'' \<longrightarrow>
                files (snd (run_job conf get locate (''1901'', filename) s)) ''./1901'' = Some b)"
    if r: "raw (get (url conf @ filename)) = Some [(''010010-99999-1901'', b), (''README.txt'', c)]"
  proof -
    note c = run_job_complete[where get = get and conf = conf and filename = filename
        and s = s and year = "''1901''" and locate = locate, OF assms(3,4) r go]
    have data: "filter (member_regex conf) (map fst [(''010010-99999-1901'', b), (''README.txt'', c)]) =
                [''010010-99999-1901'']"
      by (simp add: assms(1) member_1901 member_readme del: re_match.simps)
    have c1: "fst (run_job conf get locate (''1901'', filename) s) = None"
      by (rule c(1))
    have c4: "tmp_files (snd (run_job conf get locate (''1901'', filename) s))
                (locate ''1901'' ''010010-99999-1901'') =
              map_of (rev (map (\<lambda>m. (locate ''1901'' (fst m), snd m))
                [(''010010-99999-1901'', b), (''README.txt'', c)])) (locate ''1901'' ''010010-99999-1901'')"
      using c(4) unfolding data by simp
    have c3: "files (snd (run_job conf get locate (''1901'', filename) s)) ''./1901'' =
              Some (the (map_of (rev (map (\<lambda>m. (locate ''1901'' (fst m), snd m))
                [(''010010-99999-1901'', b), (''README.txt'', c)])) (locate ''1901'' ''010010-99999-1901'')))"
      using c(3) unfolding data p by simp
    have some: "map_of (rev (map (\<lambda>m. (locate ''1901'' (fst m), snd m))
                [(''010010-99999-1901'', b), (''README.txt'', c)])) (locate ''1901'' ''010010-99999-1901'') =
                Some (if locate ''1901'' ''README.txt'' = locate ''1901'' ''010010-99999-1901'' then c else b)"
      by simp
    show ?thesis
      using c1 c3 c4 some by auto
  qed
  have two: "fst (run_job conf get locate (''1901'', filename) s) = None \<and>
             files (snd (run_job conf get locate (''1901'', filename) s)) ''./1901'' = Some []"
    if r: "raw (get (url conf @ filename)) = Some [(''010010-99999'', b), (''README.txt'', c)]"
    using run_job_complete[where get = get and conf = conf and filename = filename
        and s = s and year = "''1901''" and locate = locate, OF assms(3,4) r go]
    by (simp add: p assms(1) member_short member_readme del: re_match.simps)
  show ?thesis
    using one two member_1901 member_short member_readme
      default_member_regex_matches[of name]
    by blast
qed

theorem default_pattern_selects_witness:
  "member_regex example_conf = re_match DEFAULT_MEMBER_REGEX \<and> \<not> is_compress example_conf \<and>
   status_code (serve 200 (Some [(''010010-99999-1901'', ''0029029070''), (''README.txt'', ''readme'')])
     (url example_conf @ ''isd_1901_c20180826T025524.tar.gz'')) = 200 \<and>
   \<not> isfile fresh ''./1901'' \<and>
   example_locate ''1901'' ''010010-99999-1901'' \<noteq> example_locate ''1901'' ''README.txt'' \<and>
   files (snd (run_job example_conf
      (serve 200 (Some [(''010010-99999-1901'', ''0029029070''), (''README.txt'', ''readme'')]))
      example_locate (''1901'', ''isd_1901_c20180826T025524.tar.gz'') fresh)) ''./1901'' = Some ''0029029070''"
proof -
  let ?ms = "[(''010010-99999-1901'', ''0029029070''), (''README.txt'', ''readme'')]"
  let ?f = "''isd_1901_c20180826T025524.tar.gz''"
  have a: "member_regex example_conf = re_match DEFAULT_MEMBER_REGEX" "\<not> is_compress example_conf"
    "200 \<le> status_code (serve 200 (Some ?ms) (url example_conf @ ?f))"
    "status_code (serve 200 (Some ?ms) (url example_conf @ ?f)) < 300"
    "\<not> (isfile fresh ''./1901'' \<and> \<not> force example_conf)"
    by (simp_all add: example_conf_def serve_def isfile_def fresh_def)
  have r: "raw (serve 200 (Some ?ms) (url example_conf @ ?f)) = Some ?ms"
    by (simp add: serve_def)
  have n: "\<not> isfile fresh ''./1901''" by (simp add: isfile_def fresh_def)
  have apart: "example_locate ''1901'' ''010010-99999-1901'' \<noteq> example_locate ''1901'' ''README.txt''"
    by (simp add: places)
  have out: "files (snd (run_job example_conf (serve 200 (Some ?ms)) example_locate
               (''1901'', ?f) fresh)) ''./1901'' = Some ''0029029070''"
    using default_pattern_selects[where get = "serve 200 (Some ?ms)" and conf = example_conf
        and filename = ?f and s = fresh and b = "''0029029070''" and c = "''readme''"
        and name = "[]" and locate = example_locate, OF a, THEN conjunct2] r apart
    by blast
  have st: "status_code (serve 200 (Some ?ms) (url example_conf @ ?f)) = 200"
    by (simp add: serve_def)
  show ?thesis
    using a(1,2) st n apart out by blast
qed

text \<open>
  The scenario of the specification: the member \<open>010010-99999\<close> has two groups of digits
  only, the pattern does not select it, and the output is empty although the member is
  not.
\<close>

theorem scenario_A_counterexample:
  "\<not> re_match DEFAULT_MEMBER_REGEX ''010010-99999'' \<and>
   files (snd (run_job example_conf
      (serve 200 (Some [(''010010-99999'', ''0029029070''), (''README.txt'', ''readme'')]))
      example_locate (''1901'', ''isd_1901_c20180826T025524.tar.gz'') fresh)) ''./1901'' = Some []"
  by (simp add: run_job_unfold member_short member_readme places del: re_match.simps)




end
